theory Spec2Isabelle
  imports Complex_Main "HOL-Library.Word"
begin

section \<open>Segment statistics of Arc Welder (arc\_welder.h)\<close>

text \<open>
  A shallow embedding of the statistics and result structures declared in
  \<^verbatim>\<open>arc_welder.h\<close>.

  \<^item> A C++ \<^verbatim>\<open>double\<close> is modelled by the real number it denotes. The comparisons
    \<^verbatim>\<open><=\<close> and \<^verbatim>\<open>>\<close> of the source are exact on finite doubles, so they are the
    order of the reals. The addition \<^verbatim>\<open>+=\<close> rounds its result; the rounding is not
    fixed here: the double addition is a parameter \<open>add_double\<close> of \<open>update\<close>, and
    every theorem holds for any such function. NaN and the infinities are not values
    of this type. Where a property depends on them (the totals), \<open>update\<close> is
    embedded a second time over all values of an IEEE double (\<open>update_ieee\<close> below),
    and the two embeddings agree on the finite values.
  \<^item> A C++ \<^verbatim>\<open>int\<close> field is a 32-bit word; \<^verbatim>\<open>++\<close> is addition of 1 on words
    (two's complement wrap-around; C++ itself leaves signed overflow undefined).
    \<open>sint\<close> reads a word as the signed integer it stands for. Loop indices are
    natural numbers: they stay below the bound they are compared with.
  \<^item> A \<^verbatim>\<open>std::vector\<close> is a list, \<^verbatim>\<open>push_back\<close> appends at the end.
  \<^item> A \<^verbatim>\<open>logger*\<close> is \<open>None\<close> (NULL) or the address of a logger.
\<close>

type_synonym double = real
type_synonym int32 = "32 word"
type_synonym logger_ptr = "nat option"

subsection \<open>struct segment\_statistic\<close>

record segment_statistic =
  min_mm :: double
  max_mm :: double
  count :: int32

text \<open>The constructor \<^verbatim>\<open>segment_statistic(min_length_mm, max_length_mm)\<close>.\<close>

definition segment_statistic :: "double \<Rightarrow> double \<Rightarrow> segment_statistic" where
  "segment_statistic min_length_mm max_length_mm =
     \<lparr>min_mm = min_length_mm, max_mm = max_length_mm, count = 0\<rparr>"

subsection \<open>struct source\_target\_segment\_statistics\<close>

text \<open>
  The private members \<^verbatim>\<open>p_logger_\<close> and \<^verbatim>\<open>logger_type_\<close> are the fields
  \<open>p_logger_priv\<close> and \<open>logger_type_priv\<close>.
\<close>

record source_target_segment_statistics =
  source_segments :: "segment_statistic list"
  target_segments :: "segment_statistic list"
  total_length_source :: double
  total_length_target :: double
  max_width :: int32
  max_precision :: int32
  total_count_source :: int32
  total_count_target :: int32
  num_segment_tracking_lengths :: int32
  p_logger_priv :: logger_ptr
  logger_type_priv :: int32

text \<open>
  The loop of the constructor,
  \<^verbatim>\<open>for (int index = 0; index < num_lengths; index++)\<close>. The array
  \<^verbatim>\<open>segment_tracking_lengths[]\<close> is the list of its elements; a read past its end
  has no defined result and is \<open>None\<close>. The loop returns the last \<open>current_min\<close>
  and the two vectors.
\<close>

function push_back_loop ::
  "double list \<Rightarrow> int \<Rightarrow> nat \<Rightarrow> double \<Rightarrow> segment_statistic list \<Rightarrow> segment_statistic list
     \<Rightarrow> (double \<times> segment_statistic list \<times> segment_statistic list) option" where
  "push_back_loop segment_tracking_lengths num_lengths index current_min source target =
     (if int index < num_lengths then
        (if index < length segment_tracking_lengths then
           (let current_max = segment_tracking_lengths ! index in
            push_back_loop segment_tracking_lengths num_lengths (index + 1) current_max
              (source @ [segment_statistic current_min (segment_tracking_lengths ! index)])
              (target @ [segment_statistic current_min (segment_tracking_lengths ! index)]))
         else None)
      else Some (current_min, source, target))"
  by pat_completeness auto
termination
  by (relation "measure (\<lambda>(ts, n, i, rest). nat (n - int i))") auto

declare push_back_loop.simps [simp del]

text \<open>
  The constructor. \<^verbatim>\<open>utilities::get_num_digits\<close> is declared elsewhere in the
  library and is a parameter here; it only determines \<open>max_width\<close>.
\<close>

definition source_target_segment_statistics ::
  "(double \<Rightarrow> int32) \<Rightarrow> double list \<Rightarrow> int32 \<Rightarrow> logger_ptr
     \<Rightarrow> source_target_segment_statistics option" where
  "source_target_segment_statistics get_num_digits segment_tracking_lengths num_lengths p_logger =
     (case push_back_loop segment_tracking_lengths (sint num_lengths) 0 0 [] [] of
        None \<Rightarrow> None
      | Some (current_min, source, target) \<Rightarrow>
          Some \<lparr>source_segments = source @ [segment_statistic current_min (- 1)],
                target_segments = target @ [segment_statistic current_min (- 1)],
                total_length_source = 0,
                total_length_target = 0,
                max_width = get_num_digits current_min,
                max_precision = 3,
                total_count_source = 0,
                total_count_target = 0,
                num_segment_tracking_lengths = num_lengths,
                p_logger_priv = p_logger,
                logger_type_priv = 0\<rparr>)"

text \<open>
  The loop of \<^verbatim>\<open>update\<close> over the chosen vector: the first bucket with
  \<^verbatim>\<open>min_mm <= length && max_mm > length\<close>, or the last one, is counted, and the
  loop breaks.
\<close>

function update_loop :: "segment_statistic list \<Rightarrow> double \<Rightarrow> nat \<Rightarrow> segment_statistic list" where
  "update_loop stats length' index =
     (if index < length stats then
        (let stat = stats ! index in
         if (min_mm stat \<le> length' \<and> max_mm stat > length') \<or> index + 1 = length stats
         then stats[index := stat\<lparr>count := count stat + 1\<rparr>]
         else update_loop stats length' (index + 1))
      else stats)"
  by pat_completeness auto
termination
  by (relation "measure (\<lambda>(stats, l, i). length stats - i)") auto

declare update_loop.simps [simp del]

text \<open>\<^verbatim>\<open>void update(double length, bool is_source)\<close>, on the state \<open>s\<close>.\<close>

definition update ::
  "(double \<Rightarrow> double \<Rightarrow> double) \<Rightarrow> source_target_segment_statistics \<Rightarrow> double \<Rightarrow> bool
     \<Rightarrow> source_target_segment_statistics" where
  "update add_double s length' is_source =
     (if length' \<le> 0 then s
      else if is_source then
        s\<lparr>total_count_source := total_count_source s + 1,
          total_length_source := add_double (total_length_source s) length',
          source_segments := update_loop (source_segments s) length' 0\<rparr>
      else
        s\<lparr>total_count_target := total_count_target s + 1,
          total_length_target := add_double (total_length_target s) length',
          target_segments := update_loop (target_segments s) length' 0\<rparr>)"

text \<open>
  A run of \<open>update\<close> calls, each given by its two arguments, in call order.
\<close>

fun update_all ::
  "(double \<Rightarrow> double \<Rightarrow> double) \<Rightarrow> source_target_segment_statistics \<Rightarrow> (double \<times> bool) list
     \<Rightarrow> source_target_segment_statistics" where
  "update_all add_double s [] = s"
| "update_all add_double s ((length', is_source) # calls) =
     update_all add_double (update add_double s length' is_source) calls"

subsection \<open>update over the values of an IEEE double\<close>

text \<open>
  What \<^verbatim>\<open>update\<close> adds to the totals depends on its guard \<^verbatim>\<open>length <= 0\<close>, and this
  guard is false of a NaN. For the totals the member function is therefore embedded a
  second time, over all values a \<^verbatim>\<open>double\<close> can hold: the finite ones (with \<open>-0.0\<close>
  and \<open>0.0\<close>, which compare equal, identified), the two infinities and NaN.

  \<open>le_ieee\<close> is \<^verbatim>\<open><=\<close> and \<open>gt_ieee\<close> is \<^verbatim>\<open>>\<close>: every comparison with a NaN is false,
  \<open>-\<infinity>\<close> is below and \<open>+\<infinity>\<close> is above every finite value.
\<close>

datatype ieee_double = Finite real | PlusInfinity | MinusInfinity | NaN

fun le_ieee :: "ieee_double \<Rightarrow> ieee_double \<Rightarrow> bool" where
  "le_ieee NaN y = False"
| "le_ieee x NaN = False"
| "le_ieee MinusInfinity y = True"
| "le_ieee x PlusInfinity = True"
| "le_ieee (Finite a) (Finite b) = (a \<le> b)"
| "le_ieee x y = False"

fun gt_ieee :: "ieee_double \<Rightarrow> ieee_double \<Rightarrow> bool" where
  "gt_ieee NaN y = False"
| "gt_ieee x NaN = False"
| "gt_ieee (Finite a) (Finite b) = (a > b)"
| "gt_ieee PlusInfinity PlusInfinity = False"
| "gt_ieee PlusInfinity y = True"
| "gt_ieee x PlusInfinity = False"
| "gt_ieee MinusInfinity y = False"
| "gt_ieee x MinusInfinity = True"

text \<open>The two structures with \<^verbatim>\<open>double\<close> fields over these values.\<close>

record segment_statistic_ieee =
  min_mm_ieee :: ieee_double
  max_mm_ieee :: ieee_double
  count_ieee :: int32

record source_target_segment_statistics_ieee =
  source_segments_ieee :: "segment_statistic_ieee list"
  target_segments_ieee :: "segment_statistic_ieee list"
  total_length_source_ieee :: ieee_double
  total_length_target_ieee :: ieee_double
  max_width_ieee :: int32
  max_precision_ieee :: int32
  total_count_source_ieee :: int32
  total_count_target_ieee :: int32
  num_segment_tracking_lengths_ieee :: int32
  p_logger_priv_ieee :: logger_ptr
  logger_type_priv_ieee :: int32

text \<open>
  \<open>ieee_statistics s\<close> is the object \<open>s\<close> read over the IEEE values: the constructor
  stores finite thresholds and zero totals, so a constructed object is of this form.
\<close>

definition ieee_segment_statistic :: "segment_statistic \<Rightarrow> segment_statistic_ieee" where
  "ieee_segment_statistic stat =
     \<lparr>min_mm_ieee = Finite (min_mm stat), max_mm_ieee = Finite (max_mm stat),
      count_ieee = count stat\<rparr>"

definition ieee_statistics ::
  "source_target_segment_statistics \<Rightarrow> source_target_segment_statistics_ieee" where
  "ieee_statistics s =
     \<lparr>source_segments_ieee = map ieee_segment_statistic (source_segments s),
      target_segments_ieee = map ieee_segment_statistic (target_segments s),
      total_length_source_ieee = Finite (total_length_source s),
      total_length_target_ieee = Finite (total_length_target s),
      max_width_ieee = max_width s,
      max_precision_ieee = max_precision s,
      total_count_source_ieee = total_count_source s,
      total_count_target_ieee = total_count_target s,
      num_segment_tracking_lengths_ieee = num_segment_tracking_lengths s,
      p_logger_priv_ieee = p_logger_priv s,
      logger_type_priv_ieee = logger_type_priv s\<rparr>"

text \<open>
  The member function \<^verbatim>\<open>update(double length, bool is_source)\<close> and its loop, line by
  line as above, with the comparisons of the IEEE values. The addition of \<^verbatim>\<open>+=\<close> is
  again a parameter \<open>add_double\<close>.
\<close>

function update_loop_ieee ::
  "segment_statistic_ieee list \<Rightarrow> ieee_double \<Rightarrow> nat \<Rightarrow> segment_statistic_ieee list" where
  "update_loop_ieee stats length' index =
     (if index < length stats then
        (let stat = stats ! index in
         if (le_ieee (min_mm_ieee stat) length' \<and> gt_ieee (max_mm_ieee stat) length')
            \<or> index + 1 = length stats
         then stats[index := stat\<lparr>count_ieee := count_ieee stat + 1\<rparr>]
         else update_loop_ieee stats length' (index + 1))
      else stats)"
  by pat_completeness auto
termination
  by (relation "measure (\<lambda>(stats, l, i). length stats - i)") auto

declare update_loop_ieee.simps [simp del]

definition update_ieee ::
  "(ieee_double \<Rightarrow> ieee_double \<Rightarrow> ieee_double) \<Rightarrow> source_target_segment_statistics_ieee
     \<Rightarrow> ieee_double \<Rightarrow> bool \<Rightarrow> source_target_segment_statistics_ieee" where
  "update_ieee add_double s length' is_source =
     (if le_ieee length' (Finite 0) then s
      else if is_source then
        s\<lparr>total_count_source_ieee := total_count_source_ieee s + 1,
          total_length_source_ieee := add_double (total_length_source_ieee s) length',
          source_segments_ieee := update_loop_ieee (source_segments_ieee s) length' 0\<rparr>
      else
        s\<lparr>total_count_target_ieee := total_count_target_ieee s + 1,
          total_length_target_ieee := add_double (total_length_target_ieee s) length',
          target_segments_ieee := update_loop_ieee (target_segments_ieee s) length' 0\<rparr>)"

text \<open>A run of \<^verbatim>\<open>update\<close> calls, each given by its two arguments.\<close>

fun update_all_ieee ::
  "(ieee_double \<Rightarrow> ieee_double \<Rightarrow> ieee_double) \<Rightarrow> source_target_segment_statistics_ieee
     \<Rightarrow> (ieee_double \<times> bool) list \<Rightarrow> source_target_segment_statistics_ieee" where
  "update_all_ieee add_double s [] = s"
| "update_all_ieee add_double s ((length', is_source) # calls) =
     update_all_ieee add_double (update_ieee add_double s length' is_source) calls"

text \<open>
  \<open>lengths_passed_ieee side calls\<close>: the lengths greater than 0 that the calls pass with
  \<open>is_source = side\<close>, in call order.
\<close>

definition lengths_passed_ieee :: "bool \<Rightarrow> (ieee_double \<times> bool) list \<Rightarrow> ieee_double list" where
  "lengths_passed_ieee side calls =
     map fst (filter (\<lambda>(length', is_source). is_source = side \<and> gt_ieee length' (Finite 0)) calls)"

text \<open>
  \<open>add_unrounded\<close>: the IEEE addition without the rounding of finite sums. It is the
  double addition wherever the exact sum of two doubles is a double, and on the
  infinities and NaN; it serves to evaluate \<open>update_ieee\<close> on such lengths.
\<close>

fun add_unrounded :: "ieee_double \<Rightarrow> ieee_double \<Rightarrow> ieee_double" where
  "add_unrounded NaN y = NaN"
| "add_unrounded x NaN = NaN"
| "add_unrounded (Finite a) (Finite b) = Finite (a + b)"
| "add_unrounded PlusInfinity MinusInfinity = NaN"
| "add_unrounded MinusInfinity PlusInfinity = NaN"
| "add_unrounded PlusInfinity y = PlusInfinity"
| "add_unrounded x PlusInfinity = PlusInfinity"
| "add_unrounded MinusInfinity y = MinusInfinity"
| "add_unrounded x MinusInfinity = MinusInfinity"

subsection \<open>The fixed thresholds\<close>

definition segment_statistic_lengths_count :: int32 where
  "segment_statistic_lengths_count = 12"

text \<open>
  The initialisers of \<^verbatim>\<open>segment_statistic_lengths\<close> are single-precision literals
  (\<^verbatim>\<open>0.002f\<close>, ...) stored in a \<^verbatim>\<open>double\<close> array. A literal with the suffix
  \<^verbatim>\<open>f\<close> denotes the IEEE 754 binary32 number nearest to the decimal (GCC, Clang and
  MSVC round to nearest), and widening it to \<^verbatim>\<open>double\<close> is exact. A normal binary32
  number is \<open>m / 2 ^ k\<close> with a 24-bit significand \<open>m\<close>, written
  \<open>float_literal m k\<close> here. Lemma \<open>literals_are_binary32\<close> checks, for each
  literal, that the number given below is the binary32 number nearest to its decimal.
\<close>

definition float_literal :: "int \<Rightarrow> nat \<Rightarrow> double" where
  "float_literal m k = real_of_int m / 2 ^ k"

text \<open>
  \<open>nearest_binary32 d m k\<close>: the number \<open>m / 2 ^ k\<close> is a normal binary32 number
  and the decimal \<open>d\<close> lies strictly less than half a unit in the last place from
  it, so that it is the binary32 number nearest to \<open>d\<close>. (Below a power of two the
  spacing of binary32 numbers halves: there \<open>d\<close> is required not to lie below.)
\<close>

definition nearest_binary32 :: "real \<Rightarrow> int \<Rightarrow> nat \<Rightarrow> bool" where
  "nearest_binary32 d m k \<longleftrightarrow>
     2 ^ 23 \<le> m \<and> m < 2 ^ 24 \<and> k \<le> 149 \<and>
     \<bar>d * 2 ^ k - real_of_int m\<bar> < 1 / 2 \<and>
     (2 ^ 23 < m \<or> real_of_int m \<le> d * 2 ^ k)"

definition segment_statistic_lengths :: "double list" where
  "segment_statistic_lengths =
     [float_literal 8589935 32,   \<comment> \<open>\<^verbatim>\<open>0.002f\<close>\<close>
      float_literal 10737418 31,  \<comment> \<open>\<^verbatim>\<open>0.005f\<close>\<close>
      float_literal 10737418 30,  \<comment> \<open>\<^verbatim>\<open>0.01f\<close>\<close>
      float_literal 13421773 28,  \<comment> \<open>\<^verbatim>\<open>0.05f\<close>\<close>
      float_literal 13421773 27,  \<comment> \<open>\<^verbatim>\<open>0.1f\<close>\<close>
      float_literal 8388608 24,   \<comment> \<open>\<^verbatim>\<open>0.5f\<close>\<close>
      float_literal 8388608 23,   \<comment> \<open>\<^verbatim>\<open>1.0f\<close>\<close>
      float_literal 10485760 21,  \<comment> \<open>\<^verbatim>\<open>5.0f\<close>\<close>
      float_literal 10485760 20,  \<comment> \<open>\<^verbatim>\<open>10.0f\<close>\<close>
      float_literal 10485760 19,  \<comment> \<open>\<^verbatim>\<open>20.0f\<close>\<close>
      float_literal 13107200 18,  \<comment> \<open>\<^verbatim>\<open>50.0f\<close>\<close>
      float_literal 13107200 17]  \<comment> \<open>\<^verbatim>\<open>100.0f\<close>\<close>"

text \<open>The decimals the literals are written with, in the same order.\<close>

definition segment_statistic_decimals :: "real list" where
  "segment_statistic_decimals =
     [2 / 1000, 5 / 1000, 1 / 100, 5 / 100, 1 / 10, 5 / 10, 1, 5, 10, 20, 50, 100]"

subsection \<open>struct arc\_welder\_progress\<close>

text \<open>
  The width of a C++ \<^verbatim>\<open>long\<close> depends on the platform (32 or 64 bits): the three
  \<^verbatim>\<open>long\<close> fields are words of a length \<open>'l\<close> left open.
\<close>

record (overloaded) ('l::len) arc_welder_progress =
  percent_complete :: double
  seconds_elapsed :: double
  seconds_remaining :: double
  gcodes_processed :: int32
  lines_processed :: int32
  points_compressed :: int32
  arcs_created :: int32
  compression_ratio :: double
  compression_percent :: double
  source_file_position :: "'l word"
  source_file_size :: "'l word"
  target_file_size :: "'l word"
  segment_statistics :: source_target_segment_statistics

text \<open>
  The constructor \<^verbatim>\<open>arc_welder_progress()\<close>; its initialiser list constructs
  \<open>segment_statistics\<close> from the fixed thresholds with a NULL logger.
\<close>

definition arc_welder_progress :: "(double \<Rightarrow> int32) \<Rightarrow> 'l::len arc_welder_progress option" where
  "arc_welder_progress get_num_digits =
     (case source_target_segment_statistics get_num_digits
             segment_statistic_lengths segment_statistic_lengths_count None of
        None \<Rightarrow> None
      | Some statistics \<Rightarrow>
          Some \<lparr>percent_complete = 0,
                seconds_elapsed = 0,
                seconds_remaining = 0,
                gcodes_processed = 0,
                lines_processed = 0,
                points_compressed = 0,
                arcs_created = 0,
                compression_ratio = 0,
                compression_percent = 0,
                source_file_position = 0,
                source_file_size = 0,
                target_file_size = 0,
                segment_statistics = statistics\<rparr>)"

text \<open>
  \<^verbatim>\<open>typedef bool(*progress_callback)(arc_welder_progress, logger* p_logger, int logger_type)\<close>
\<close>

type_synonym 'l progress_callback = "'l arc_welder_progress \<Rightarrow> logger_ptr \<Rightarrow> int32 \<Rightarrow> bool"

subsection \<open>struct arc\_welder\_results\<close>

record (overloaded) ('l::len) arc_welder_results =
  success :: bool
  cancelled :: bool
  message :: string
  progress :: "'l arc_welder_progress"

text \<open>The constructor \<^verbatim>\<open>arc_welder_results()\<close>.\<close>

definition arc_welder_results :: "(double \<Rightarrow> int32) \<Rightarrow> 'l::len arc_welder_results option" where
  "arc_welder_results get_num_digits =
     (case arc_welder_progress get_num_digits of
        None \<Rightarrow> None
      | Some p \<Rightarrow> Some \<lparr>success = False, cancelled = False, message = '''', progress = p\<rparr>)"

subsection \<open>Notions used to state the properties\<close>

text \<open>
  \<open>counts_match_totals s\<close>: on each side, the bucket counts add up to the total count
  (addition of \<^verbatim>\<open>int\<close> values, as the program would compute the sum).
\<close>

definition counts_match_totals :: "source_target_segment_statistics \<Rightarrow> bool" where
  "counts_match_totals s \<longleftrightarrow>
     sum_list (map count (source_segments s)) = total_count_source s \<and>
     sum_list (map count (target_segments s)) = total_count_target s"

text \<open>\<open>segments_of is_source s\<close>: the vector that \<open>update\<close> selects with \<open>is_source\<close>.\<close>

definition segments_of :: "bool \<Rightarrow> source_target_segment_statistics \<Rightarrow> segment_statistic list" where
  "segments_of is_source s = (if is_source then source_segments s else target_segments s)"

text \<open>
  \<open>segment_statistic_binary32\<close>: for each literal of \<open>segment_statistic_lengths\<close>, in
  order, the significand \<open>m\<close> and the exponent \<open>k\<close> of the binary32 number
  \<open>m / 2 ^ k\<close> it denotes.
\<close>

definition segment_statistic_binary32 :: "(int \<times> nat) list" where
  "segment_statistic_binary32 =
     [(8589935, 32), (10737418, 31), (10737418, 30), (13421773, 28), (13421773, 27),
      (8388608, 24), (8388608, 23), (10485760, 21), (10485760, 20), (10485760, 19),
      (13107200, 18), (13107200, 17)]"

subsection \<open>The notification loop of process()\<close>

text \<open>
  Modelled from the spec: \<^verbatim>\<open>arc_welder::process\<close> and \<^verbatim>\<open>arc_welder::on_progress_\<close> are
  only declared in \<^verbatim>\<open>arc_welder.h\<close>; their bodies are not among the sources. The
  specification (sections 4.7, 6 and 7) says: the progress callback is invoked with a
  progress snapshot and returns a continue/cancel boolean; cancel causes the pipeline to
  stop and to return a result marked \<open>cancelled = true\<close> (with \<open>success = true\<close>: a
  cancellation is not an error); the result carries the final progress snapshot.

  \<open>process_notifications callback p_logger logger_type results notifications final\<close>
  is a run with a callback installed: \<open>notifications\<close> are the snapshots of its
  successive notification points, \<open>final\<close> is the snapshot at the end of the source
  file, and \<open>results\<close> is the freshly constructed result record that the run fills in.
  Input and output errors are not part of this model.
\<close>

fun process_notifications ::
  "'l::len progress_callback \<Rightarrow> logger_ptr \<Rightarrow> int32 \<Rightarrow> 'l arc_welder_results
     \<Rightarrow> 'l arc_welder_progress list \<Rightarrow> 'l arc_welder_progress \<Rightarrow> 'l arc_welder_results" where
  "process_notifications callback p_logger logger_type results [] final =
     results\<lparr>success := True, cancelled := False, progress := final\<rparr>"
| "process_notifications callback p_logger logger_type results (snapshot # later) final =
     (if callback snapshot p_logger logger_type
      then process_notifications callback p_logger logger_type results later final
      else results\<lparr>success := True, cancelled := True, progress := snapshot\<rparr>)"

section \<open>Auxiliary facts\<close>

subsection \<open>The loop of update\<close>

lemma update_loop_length: "length (update_loop stats l index) = length stats"
proof (induction stats l index rule: update_loop.induct)
  case (1 stats l index)
  then show ?case
    by (subst update_loop.simps) (simp add: Let_def)
qed

lemma update_loop_min_mm: "map min_mm (update_loop stats l index) = map min_mm stats"
proof (induction stats l index rule: update_loop.induct)
  case (1 stats l index)
  then show ?case
    by (subst update_loop.simps) (simp add: Let_def map_update list_update_same_conv)
qed

lemma update_loop_max_mm: "map max_mm (update_loop stats l index) = map max_mm stats"
proof (induction stats l index rule: update_loop.induct)
  case (1 stats l index)
  then show ?case
    by (subst update_loop.simps) (simp add: Let_def map_update list_update_same_conv)
qed

lemma update_loop_first_hit:
  assumes "index \<le> k" and "k < length stats"
    and "\<And>j. index \<le> j \<Longrightarrow> j < k \<Longrightarrow> \<not> (min_mm (stats ! j) \<le> l \<and> l < max_mm (stats ! j))"
    and "(min_mm (stats ! k) \<le> l \<and> l < max_mm (stats ! k)) \<or> k + 1 = length stats"
  shows "update_loop stats l index = stats[k := (stats ! k)\<lparr>count := count (stats ! k) + 1\<rparr>]"
  using assms
proof (induction "k - index" arbitrary: index)
  case 0
  then have "index = k" by simp
  with 0 show ?case
    by (subst update_loop.simps) (auto simp: Let_def)
next
  case (Suc d)
  then have lt: "index < k" by simp
  have miss: "\<not> (min_mm (stats ! index) \<le> l \<and> l < max_mm (stats ! index))"
    using Suc.prems(3) [of index] lt by simp
  have "update_loop stats l (index + 1) = stats[k := (stats ! k)\<lparr>count := count (stats ! k) + 1\<rparr>]"
    using Suc.hyps(1) [of "index + 1"] Suc.hyps(2) Suc.prems lt by auto
  with lt miss Suc.prems(2) show ?case
    by (subst update_loop.simps) (auto simp: Let_def)
qed

lemma update_loop_some_bucket:
  assumes "index < length stats"
  shows "\<exists>k. index \<le> k \<and> k < length stats \<and>
    update_loop stats l index = stats[k := (stats ! k)\<lparr>count := count (stats ! k) + 1\<rparr>]"
  using assms
proof (induction stats l index rule: update_loop.induct)
  case (1 stats l index)
  show ?case
  proof (cases "(min_mm (stats ! index) \<le> l \<and> max_mm (stats ! index) > l) \<or> index + 1 = length stats")
    case True
    with 1(2) have "update_loop stats l index = stats[index := (stats ! index)\<lparr>count := count (stats ! index) + 1\<rparr>]"
      by (subst update_loop.simps) (simp add: Let_def)
    with 1(2) show ?thesis by blast
  next
    case False
    with 1(2) have lt: "index + 1 < length stats" by simp
    from 1(1) [OF 1(2) refl False lt] obtain k where
      k: "index + 1 \<le> k" "k < length stats"
      "update_loop stats l (index + 1) = stats[k := (stats ! k)\<lparr>count := count (stats ! k) + 1\<rparr>]"
      by blast
    from False 1(2) have "update_loop stats l index = update_loop stats l (index + 1)"
      by (subst update_loop.simps) (auto simp: Let_def)
    with k show ?thesis by (intro exI [of _ k]) simp
  qed
qed

lemma update_loop_sorted:
  assumes sorted: "sorted ts" and pos: "0 \<le> l"
    and lo: "map min_mm stats = 0 # ts" and hi: "map max_mm stats = ts @ [- 1]"
  shows "\<exists>k\<le>length ts.
     (if \<exists>t\<in>set ts. l < t
      then k < length ts \<and>
        (\<forall>j\<le>length ts. (min_mm (stats ! j) \<le> l \<and> l < max_mm (stats ! j)) = (j = k))
      else k = length ts) \<and>
     update_loop stats l 0 = stats[k := (stats ! k)\<lparr>count := count (stats ! k) + 1\<rparr>]"
proof -
  have len: "length stats = length ts + 1"
    using lo by (metis length_map length_Cons Suc_eq_plus1)
  have lo_nth: "min_mm (stats ! j) = (0 # ts) ! j" if "j \<le> length ts" for j
    using that len lo by (metis nth_map less_Suc_eq_le Suc_eq_plus1)
  have hi_nth: "max_mm (stats ! j) = (ts @ [- 1]) ! j" if "j \<le> length ts" for j
    using that len hi by (metis nth_map less_Suc_eq_le Suc_eq_plus1)
  have hi_lt: "max_mm (stats ! j) = ts ! j" if "j < length ts" for j
    using that hi_nth [of j] by (simp add: nth_append)
  show ?thesis
  proof (cases "\<exists>t\<in>set ts. l < t")
    case True
    then have ex: "\<exists>j. j < length ts \<and> l < ts ! j"
      by (auto simp: in_set_conv_nth)
    define k where "k = (LEAST j. j < length ts \<and> l < ts ! j)"
    have k: "k < length ts" "l < ts ! k"
      using LeastI_ex [OF ex] by (simp_all add: k_def)
    have below: "ts ! j \<le> l" if "j < k" for j
    proof -
      from that have "\<not> (j < length ts \<and> l < ts ! j)"
        unfolding k_def by (rule not_less_Least)
      with that k(1) show ?thesis by simp
    qed
    have hit_k: "min_mm (stats ! k) \<le> l \<and> l < max_mm (stats ! k)"
    proof (cases k)
      case 0
      with pos k show ?thesis using lo_nth [of 0] hi_lt [of 0] by simp
    next
      case (Suc k')
      with below [of k'] k show ?thesis using lo_nth [of k] hi_lt [of k] by simp
    qed
    have miss_below: "\<not> (min_mm (stats ! j) \<le> l \<and> l < max_mm (stats ! j))" if "j < k" for j
      using that below [of j] k(1) hi_lt [of j] by simp
    have miss_above: "\<not> (min_mm (stats ! j) \<le> l \<and> l < max_mm (stats ! j))"
      if "k < j" "j \<le> length ts" for j
    proof -
      from that obtain j' where j': "j = Suc j'" by (cases j) simp_all
      with that have "k \<le> j'" "j' < length ts" by simp_all
      with sorted have "ts ! k \<le> ts ! j'" by (simp add: sorted_nth_mono)
      with k(2) j' that show ?thesis using lo_nth [of j] by simp
    qed
    have unique: "\<forall>j\<le>length ts. (min_mm (stats ! j) \<le> l \<and> l < max_mm (stats ! j)) = (j = k)"
      using hit_k miss_below miss_above by (metis linorder_neqE_nat)
    have "update_loop stats l 0 = stats[k := (stats ! k)\<lparr>count := count (stats ! k) + 1\<rparr>]"
      using k(1) len hit_k miss_below by (intro update_loop_first_hit) simp_all
    with True k(1) unique show ?thesis
      by (intro exI [of _ k]) simp
  next
    case False
    then have all: "ts ! j \<le> l" if "j < length ts" for j
      using that by (meson nth_mem not_le)
    have miss: "\<not> (min_mm (stats ! j) \<le> l \<and> l < max_mm (stats ! j))" if "j < length ts" for j
      using that all [of j] hi_lt [of j] by simp
    have "update_loop stats l 0 =
        stats[length ts := (stats ! length ts)\<lparr>count := count (stats ! length ts) + 1\<rparr>]"
      using len miss by (intro update_loop_first_hit) simp_all
    with False show ?thesis
      by (intro exI [of _ "length ts"]) simp
  qed
qed

lemma update_source_ranges:
  "map min_mm (source_segments (update add_double s l b)) = map min_mm (source_segments s)"
  "map max_mm (source_segments (update add_double s l b)) = map max_mm (source_segments s)"
  by (simp_all add: update_def update_loop_min_mm update_loop_max_mm)

lemma update_target_ranges:
  "map min_mm (target_segments (update add_double s l b)) = map min_mm (target_segments s)"
  "map max_mm (target_segments (update add_double s l b)) = map max_mm (target_segments s)"
  by (simp_all add: update_def update_loop_min_mm update_loop_max_mm)

lemma update_all_ranges:
  "map min_mm (source_segments (update_all add_double s calls)) = map min_mm (source_segments s)"
  "map max_mm (source_segments (update_all add_double s calls)) = map max_mm (source_segments s)"
  "map min_mm (target_segments (update_all add_double s calls)) = map min_mm (target_segments s)"
  "map max_mm (target_segments (update_all add_double s calls)) = map max_mm (target_segments s)"
  by (induction add_double s calls rule: update_all.induct)
    (simp_all add: update_source_ranges update_target_ranges)

subsection \<open>The loop of the constructor\<close>

lemma push_back_loop_result:
  assumes "i \<le> nat n" and "nat n \<le> length ts"
  shows "\<exists>d. push_back_loop ts n i cm src tgt =
           Some (last (cm # drop i (take (nat n) ts)), src @ d, tgt @ d) \<and>
         map min_mm d = butlast (cm # drop i (take (nat n) ts)) \<and>
         map max_mm d = drop i (take (nat n) ts) \<and>
         map count d = replicate (nat n - i) 0"
  using assms
proof (induction "nat n - i" arbitrary: i cm src tgt)
  case 0
  then have "i = nat n" by simp
  then have "\<not> int i < n" by simp
  then have "push_back_loop ts n i cm src tgt = Some (cm, src, tgt)"
    by (subst push_back_loop.simps) simp
  with \<open>i = nat n\<close> show ?case by simp
next
  case (Suc k)
  then have lt: "i < nat n" by simp
  with Suc.prems have in_range: "int i < n" "i < length ts" by simp_all
  let ?b = "segment_statistic cm (ts ! i)"
  let ?xs = "drop (i + 1) (take (nat n) ts)"
  have split: "drop i (take (nat n) ts) = ts ! i # ?xs"
    using lt Suc.prems by (simp add: Cons_nth_drop_Suc [symmetric])
  have "k = nat n - (i + 1)" "i + 1 \<le> nat n"
    using Suc.hyps(2) lt by simp_all
  from Suc.hyps(1) [OF this Suc.prems(2), of "ts ! i" "src @ [?b]" "tgt @ [?b]"]
  obtain d where d:
    "push_back_loop ts n (i + 1) (ts ! i) (src @ [?b]) (tgt @ [?b]) =
       Some (last (ts ! i # ?xs), (src @ [?b]) @ d, (tgt @ [?b]) @ d)"
    "map min_mm d = butlast (ts ! i # ?xs)"
    "map max_mm d = ?xs"
    "map count d = replicate (nat n - (i + 1)) 0"
    by blast
  have step: "push_back_loop ts n i cm src tgt =
      push_back_loop ts n (i + 1) (ts ! i) (src @ [?b]) (tgt @ [?b])"
    using in_range by (subst push_back_loop.simps) (simp add: Let_def)
  have rep: "replicate (nat n - i) (0::int32) = 0 # replicate (nat n - (i + 1)) 0"
    using lt by (simp add: replicate_Suc [symmetric] Suc_diff_Suc del: replicate_Suc)
  show ?case
    using d step split rep
    by (intro exI [of _ "?b # d"]) (simp add: segment_statistic_def)
qed

lemma constructor_result:
  assumes "sint num_lengths = int (length ts)"
  shows "\<exists>s. source_target_segment_statistics get_num_digits ts num_lengths p_logger = Some s \<and>
     map min_mm (source_segments s) = 0 # ts \<and>
     map max_mm (source_segments s) = ts @ [- 1] \<and>
     map count (source_segments s) = replicate (length ts + 1) 0 \<and>
     target_segments s = source_segments s \<and>
     total_length_source s = 0 \<and> total_length_target s = 0 \<and>
     total_count_source s = 0 \<and> total_count_target s = 0 \<and>
     max_width s = get_num_digits (last (0 # ts)) \<and> max_precision s = 3 \<and>
     num_segment_tracking_lengths s = num_lengths \<and>
     p_logger_priv s = p_logger \<and> logger_type_priv s = 0"
proof -
  from assms have n: "nat (sint num_lengths) = length ts" by simp
  from push_back_loop_result [of 0 "sint num_lengths" ts 0 "[]" "[]"] n
  obtain d where d:
    "push_back_loop ts (sint num_lengths) 0 0 [] [] = Some (last (0 # ts), d, d)"
    "map min_mm d = butlast (0 # ts)" "map max_mm d = ts" "map count d = replicate (length ts) 0"
    by auto
  have "butlast (0 # ts) @ [last (0 # ts)] = 0 # ts"
    by (rule append_butlast_last_id) simp
  with d show ?thesis
    by (simp add: source_target_segment_statistics_def segment_statistic_def replicate_append_same)
qed

lemma push_back_loop_counts:
  assumes "push_back_loop ts n i cm src tgt = Some (cm', src', tgt')"
  shows "\<exists>d. src' = src @ d \<and> tgt' = tgt @ d \<and> (\<forall>b\<in>set d. count b = 0)"
  using assms
proof (induction ts n i cm src tgt rule: push_back_loop.induct)
  case (1 ts n i cm src tgt)
  show ?case
  proof (cases "int i < n")
    case False
    with "1.prems" have "src' = src" "tgt' = tgt"
      by (subst (asm) push_back_loop.simps, simp)+
    then show ?thesis by simp
  next
    case True
    let ?b = "segment_statistic cm (ts ! i)"
    from True "1.prems" have inside: "i < length ts"
      by (subst (asm) push_back_loop.simps) (simp split: if_splits)
    with True "1.prems" have
      "push_back_loop ts n (i + 1) (ts ! i) (src @ [?b]) (tgt @ [?b]) = Some (cm', src', tgt')"
      by (subst (asm) push_back_loop.simps) (simp add: Let_def)
    from "1.IH" [OF True inside refl this] obtain d where
      "src' = (src @ [?b]) @ d" "tgt' = (tgt @ [?b]) @ d" "\<forall>b\<in>set d. count b = 0"
      by blast
    then show ?thesis
      by (intro exI [of _ "?b # d"]) (simp add: segment_statistic_def)
  qed
qed

lemma segments_from_fields:
  assumes "map min_mm xs = a" and "map max_mm xs = b" and "map count xs = replicate (length xs) 0"
  shows "xs = map2 segment_statistic a b"
  using assms
proof (induction xs arbitrary: a b)
  case Nil
  then show ?case by simp
next
  case (Cons x xs)
  from Cons.prems have "a = min_mm x # map min_mm xs" "b = max_mm x # map max_mm xs" "count x = 0"
    "map count xs = replicate (length xs) 0"
    by auto
  moreover from Cons.IH [OF refl refl this(4)] have "xs = map2 segment_statistic (map min_mm xs) (map max_mm xs)" .
  moreover have "x = segment_statistic (min_mm x) (max_mm x)"
    using \<open>count x = 0\<close> by (cases x) (simp add: segment_statistic_def)
  ultimately show ?case by simp
qed

lemma statistics_from_fields:
  fixes s :: source_target_segment_statistics
  assumes "source_segments s = a" "target_segments s = b" "total_length_source s = c"
   "total_length_target s = d" "max_width s = e" "max_precision s = f" "total_count_source s = g"
   "total_count_target s = h" "num_segment_tracking_lengths s = i" "p_logger_priv s = j" "logger_type_priv s = k"
  shows "s = \<lparr>source_segments = a, target_segments = b, total_length_source = c, total_length_target = d,
     max_width = e, max_precision = f, total_count_source = g, total_count_target = h,
     num_segment_tracking_lengths = i, p_logger_priv = j, logger_type_priv = k\<rparr>"
  using assms by (cases s) simp

lemma constructor_value:
  assumes "sint num_lengths = int (length ts)"
  shows "source_target_segment_statistics get_num_digits ts num_lengths p_logger = Some
     \<lparr>source_segments = map2 segment_statistic (0 # ts) (ts @ [- 1]),
      target_segments = map2 segment_statistic (0 # ts) (ts @ [- 1]),
      total_length_source = 0,
      total_length_target = 0,
      max_width = get_num_digits (last (0 # ts)),
      max_precision = 3,
      total_count_source = 0,
      total_count_target = 0,
      num_segment_tracking_lengths = num_lengths,
      p_logger_priv = p_logger,
      logger_type_priv = 0\<rparr>"
proof -
  from constructor_result [OF assms, of get_num_digits p_logger] obtain s where
    s: "source_target_segment_statistics get_num_digits ts num_lengths p_logger = Some s"
    and f: "map min_mm (source_segments s) = 0 # ts"
      "map max_mm (source_segments s) = ts @ [- 1]"
      "map count (source_segments s) = replicate (length ts + 1) 0"
      "target_segments s = source_segments s"
    and g: "total_length_source s = 0" "total_length_target s = 0"
      "total_count_source s = 0" "total_count_target s = 0"
      "max_width s = get_num_digits (last (0 # ts))" "max_precision s = 3"
      "num_segment_tracking_lengths s = num_lengths"
      "p_logger_priv s = p_logger" "logger_type_priv s = 0"
    by (elim exE conjE)
  from f(1) have "length (source_segments s) = length ts + 1"
    by (metis length_map length_Cons Suc_eq_plus1)
  with f(3) have "map count (source_segments s) = replicate (length (source_segments s)) 0"
    by simp
  from segments_from_fields [OF f(1) f(2) this]
  have src: "source_segments s = map2 segment_statistic (0 # ts) (ts @ [- 1])" .
  show ?thesis
    unfolding s option.inject
    by (rule statistics_from_fields) (simp_all only: f(4) src g)
qed

subsection \<open>Counts and totals\<close>

lemma sum_list_count_bump:
  "k < length xs \<Longrightarrow>
   sum_list (map count (xs[k := (xs ! k)\<lparr>count := count (xs ! k) + 1\<rparr>])) = sum_list (map count xs) + 1"
proof (induction xs arbitrary: k)
  case Nil
  then show ?case by simp
next
  case (Cons x xs)
  then show ?case by (cases k) simp_all
qed

lemma update_segments_nonempty:
  "source_segments (update add_double s l b) = [] \<longleftrightarrow> source_segments s = []"
  "target_segments (update add_double s l b) = [] \<longleftrightarrow> target_segments s = []"
  by (simp_all add: update_def flip: length_0_conv [where xs = "update_loop _ _ _"] add: update_loop_length)

lemma update_counts_match:
  assumes "source_segments s \<noteq> []" and "target_segments s \<noteq> []" and "counts_match_totals s"
  shows "counts_match_totals (update add_double s l b)"
proof (cases "l \<le> 0")
  case True
  with assms show ?thesis by (simp add: update_def)
next
  case False
  from assms(1) obtain k where k: "k < length (source_segments s)"
    "update_loop (source_segments s) l 0 =
       (source_segments s)[k := (source_segments s ! k)\<lparr>count := count (source_segments s ! k) + 1\<rparr>]"
    using update_loop_some_bucket [of 0 "source_segments s" l] by auto
  from assms(2) obtain m where m: "m < length (target_segments s)"
    "update_loop (target_segments s) l 0 =
       (target_segments s)[m := (target_segments s ! m)\<lparr>count := count (target_segments s ! m) + 1\<rparr>]"
    using update_loop_some_bucket [of 0 "target_segments s" l] by auto
  from False assms(3) k m show ?thesis
    by (simp add: update_def counts_match_totals_def sum_list_count_bump)
qed

lemma update_all_counts_match:
  assumes "source_segments s \<noteq> []" and "target_segments s \<noteq> []" and "counts_match_totals s"
  shows "counts_match_totals (update_all add_double s calls)"
  using assms
proof (induction add_double s calls rule: update_all.induct)
  case (1 add_double s)
  then show ?case by simp
next
  case (2 add_double s length' is_source calls)
  then show ?case
    by (simp add: update_counts_match update_segments_nonempty)
qed

lemma constructed_counts_match:
  assumes "source_target_segment_statistics get_num_digits ts num_lengths p_logger = Some s0"
  shows "source_segments s0 \<noteq> [] \<and> target_segments s0 \<noteq> [] \<and> counts_match_totals s0"
proof -
  from assms obtain cm src tgt where
    s0: "source_segments s0 = src @ [segment_statistic cm (- 1)]"
    "target_segments s0 = tgt @ [segment_statistic cm (- 1)]"
    "total_count_source s0 = 0" "total_count_target s0 = 0"
    and loop: "push_back_loop ts (sint num_lengths) 0 0 [] [] = Some (cm, src, tgt)"
    by (auto simp: source_target_segment_statistics_def split: option.splits)
  from push_back_loop_counts [OF loop] have "\<forall>b\<in>set src. count b = 0" "\<forall>b\<in>set tgt. count b = 0"
    by auto
  then have "map count src = replicate (length src) 0" "map count tgt = replicate (length tgt) 0"
    by (simp_all add: map_replicate_const [symmetric])
  with s0 show ?thesis
    by (simp add: counts_match_totals_def segment_statistic_def sum_list_replicate)
qed

lemma sint_count: "n \<le> 2147483647 \<Longrightarrow> sint (of_nat n :: int32) = int n"
  by (simp add: signed_of_nat signed_take_bit_int_eq_self)

subsection \<open>The totals over the IEEE values\<close>

lemma compare_nan [simp]: "le_ieee x NaN = False" "gt_ieee x NaN = False"
  by (cases x; simp)+

lemma gt_ieee_iff: "gt_ieee x y \<longleftrightarrow> le_ieee y x \<and> \<not> le_ieee x y"
  by (cases x; cases y) auto

lemma le_gt_ieee: "length' \<noteq> NaN \<Longrightarrow> le_ieee length' (Finite 0) \<longleftrightarrow> \<not> gt_ieee length' (Finite 0)"
  by (cases length') auto

lemma update_all_ieee_totals:
  assumes "\<forall>call\<in>set calls. fst call \<noteq> NaN"
  shows "total_length_source_ieee (update_all_ieee add_double s calls) =
       foldl add_double (total_length_source_ieee s) (lengths_passed_ieee True calls) \<and>
     total_length_target_ieee (update_all_ieee add_double s calls) =
       foldl add_double (total_length_target_ieee s) (lengths_passed_ieee False calls) \<and>
     total_count_source_ieee (update_all_ieee add_double s calls) =
       total_count_source_ieee s + of_nat (length (lengths_passed_ieee True calls)) \<and>
     total_count_target_ieee (update_all_ieee add_double s calls) =
       total_count_target_ieee s + of_nat (length (lengths_passed_ieee False calls))"
  using assms
proof (induction add_double s calls rule: update_all_ieee.induct)
  case (1 add_double s)
  then show ?case by (simp add: lengths_passed_ieee_def)
next
  case (2 add_double s length' is_source calls)
  from "2.prems" have l: "length' \<noteq> NaN" and rest: "\<forall>call\<in>set calls. fst call \<noteq> NaN"
    by simp_all
  from "2.IH" [OF rest] l show ?case
    by (simp add: lengths_passed_ieee_def update_ieee_def le_gt_ieee)
qed

lemma ieee_segment_statistic_fields [simp]:
  "min_mm_ieee (ieee_segment_statistic stat) = Finite (min_mm stat)"
  "max_mm_ieee (ieee_segment_statistic stat) = Finite (max_mm stat)"
  "count_ieee (ieee_segment_statistic stat) = count stat"
  by (simp_all add: ieee_segment_statistic_def)

lemma ieee_segment_statistic_bump:
  "ieee_segment_statistic stat\<lparr>count_ieee := count stat + 1\<rparr> =
     ieee_segment_statistic (stat\<lparr>count := count stat + 1\<rparr>)"
  by (simp add: ieee_segment_statistic_def)

lemma update_loop_ieee_finite:
  "update_loop_ieee (map ieee_segment_statistic stats) (Finite l) index =
     map ieee_segment_statistic (update_loop stats l index)"
proof (induction stats l index rule: update_loop.induct)
  case (1 stats l index)
  show ?case
  proof (cases "index < length stats")
    case False
    then show ?thesis
      by (subst update_loop_ieee.simps, subst update_loop.simps) simp
  next
    case True
    show ?thesis
    proof (cases "(min_mm (stats ! index) \<le> l \<and> max_mm (stats ! index) > l) \<or> index + 1 = length stats")
      case hit: True
      with True show ?thesis
        by (subst update_loop_ieee.simps, subst update_loop.simps)
          (auto simp: Let_def map_update ieee_segment_statistic_bump)
    next
      case miss: False
      have "update_loop_ieee (map ieee_segment_statistic stats) (Finite l) index =
          update_loop_ieee (map ieee_segment_statistic stats) (Finite l) (index + 1)"
        using True miss by (subst update_loop_ieee.simps) (auto simp: Let_def)
      also have "\<dots> = map ieee_segment_statistic (update_loop stats l (index + 1))"
        by (rule "1.IH" [OF True refl miss])
      also have "update_loop stats l (index + 1) = update_loop stats l index"
        using True miss by (subst (2) update_loop.simps) (auto simp: Let_def)
      finally show ?thesis .
    qed
  qed
qed

lemma update_ieee_finite:
  assumes "\<And>a b. add_ieee (Finite a) (Finite b) = Finite (add_double a b)"
  shows "update_ieee add_ieee (ieee_statistics s) (Finite length') is_source =
     ieee_statistics (update add_double s length' is_source)"
  by (simp add: update_ieee_def update_def ieee_statistics_def assms update_loop_ieee_finite)

lemma update_all_ieee_finite:
  assumes "\<And>a b. add_ieee (Finite a) (Finite b) = Finite (add_double a b)"
  shows "update_all_ieee add_ieee (ieee_statistics s) (map (\<lambda>(length', is_source). (Finite length', is_source)) calls) =
     ieee_statistics (update_all add_double s calls)"
proof (induction calls arbitrary: s)
  case Nil
  show ?case by simp
next
  case (Cons call calls)
  obtain length' is_source where call: "call = (length', is_source)"
    by (cases call)
  show ?case
    by (simp add: call update_ieee_finite [of add_ieee add_double, OF assms] Cons.IH)
qed

lemma update_ieee_nan:
  "total_count_source_ieee (update_ieee add_double s NaN True) = total_count_source_ieee s + 1"
  "total_length_source_ieee (update_ieee add_double s NaN True) = add_double (total_length_source_ieee s) NaN"
  "source_segments_ieee (update_ieee add_double s NaN True) = update_loop_ieee (source_segments_ieee s) NaN 0"
  by (simp_all add: update_ieee_def)

lemma update_loop_ieee_nan:
  "index < length stats \<Longrightarrow>
     update_loop_ieee stats NaN index =
       stats[length stats - 1 := (stats ! (length stats - 1))\<lparr>count_ieee := count_ieee (stats ! (length stats - 1)) + 1\<rparr>]"
proof (induction stats NaN index rule: update_loop_ieee.induct)
  case (1 stats index)
  show ?case
  proof (cases "index + 1 = length stats")
    case True
    then have "index = length stats - 1" by simp
    with True "1.prems" show ?thesis
      by (subst update_loop_ieee.simps) (simp add: Let_def)
  next
    case False
    with "1.prems" have next_index: "index + 1 < length stats" by simp
    have miss: "\<not> ((le_ieee (min_mm_ieee (stats ! index)) NaN \<and> gt_ieee (max_mm_ieee (stats ! index)) NaN)
        \<or> index + 1 = length stats)"
      using False by simp
    have "update_loop_ieee stats NaN index = update_loop_ieee stats NaN (index + 1)"
      using "1.prems" miss by (subst update_loop_ieee.simps) (simp add: Let_def)
    also note "1.hyps" [OF "1.prems" refl miss next_index]
    finally show ?thesis .
  qed
qed

subsection \<open>The literals\<close>

lemma literals_are_binary32:
  "segment_statistic_lengths = map (\<lambda>(m, k). float_literal m k) segment_statistic_binary32 \<and>
   list_all2 (\<lambda>d (m, k). nearest_binary32 d m k)
     segment_statistic_decimals segment_statistic_binary32"
  by (simp add: segment_statistic_lengths_def segment_statistic_decimals_def
      segment_statistic_binary32_def nearest_binary32_def)

lemma five_not_dvd_power_of_two: "\<not> (5::int) dvd 2 ^ k"
proof
  assume d: "(5::int) dvd 2 ^ k"
  have "coprime (5::int) (2 ^ k)"
    by simp
  from coprime_common_divisor [OF this dvd_refl d] show False
    by simp
qed

lemma no_binary_fraction:
  assumes "0 < c"
  shows "real_of_int m / 2 ^ k \<noteq> 1 / (5 * real_of_int c)"
proof
  assume "real_of_int m / 2 ^ k = 1 / (5 * real_of_int c)"
  with assms have "real_of_int m * (5 * real_of_int c) = 2 ^ k"
    by (simp add: field_simps)
  then have "real_of_int (m * (5 * c)) = real_of_int (2 ^ k)"
    by simp
  then have "m * (5 * c) = 2 ^ k"
    by (simp only: of_int_eq_iff)
  moreover have "(5::int) dvd m * (5 * c)"
    by simp
  ultimately have "(5::int) dvd 2 ^ k"
    by simp
  with five_not_dvd_power_of_two show False by blast
qed

lemma decimals_not_binary:
  "list_all (\<lambda>d. \<forall>m k. real_of_int m / 2 ^ k \<noteq> d) (take 5 segment_statistic_decimals)"
proof -
  have "\<forall>m k. real_of_int m / 2 ^ k \<noteq> 2 / 1000"
    "\<forall>m k. real_of_int m / 2 ^ k \<noteq> 5 / 1000"
    "\<forall>m k. real_of_int m / 2 ^ k \<noteq> 1 / 100"
    "\<forall>m k. real_of_int m / 2 ^ k \<noteq> 5 / 100"
    "\<forall>m k. real_of_int m / 2 ^ k \<noteq> 1 / 10"
    using no_binary_fraction [of 100] no_binary_fraction [of 40] no_binary_fraction [of 20]
      no_binary_fraction [of 4] no_binary_fraction [of 2]
    by simp_all
  then show ?thesis
    by (simp add: segment_statistic_decimals_def)
qed

subsection \<open>The statistics built from the fixed thresholds\<close>

lemma sorted_thresholds: "sorted segment_statistic_lengths"
  by (simp add: segment_statistic_lengths_def float_literal_def)

lemma below_some_threshold:
  "(\<exists>t\<in>set segment_statistic_lengths. l < t) \<longleftrightarrow> l < 100"
  by (auto simp: segment_statistic_lengths_def float_literal_def)

lemma thresholds_nth:
  "length segment_statistic_lengths = 12"
  "segment_statistic_lengths ! 11 = 100"
  by (simp_all add: segment_statistic_lengths_def float_literal_def)

lemma default_constructed:
  assumes "source_target_segment_statistics get_num_digits
          segment_statistic_lengths segment_statistic_lengths_count p_logger = Some s"
  shows "map min_mm (source_segments s) = 0 # segment_statistic_lengths"
    and "map max_mm (source_segments s) = segment_statistic_lengths @ [- 1]"
    and "target_segments s = source_segments s"
proof -
  have "sint segment_statistic_lengths_count = int (length segment_statistic_lengths)"
    by (simp add: segment_statistic_lengths_count_def segment_statistic_lengths_def)
  from constructor_result [OF this, of get_num_digits p_logger] assms
  show "map min_mm (source_segments s) = 0 # segment_statistic_lengths"
    and "map max_mm (source_segments s) = segment_statistic_lengths @ [- 1]"
    and "target_segments s = source_segments s"
    by auto
qed

lemma default_exists:
  "\<exists>s. source_target_segment_statistics get_num_digits
          segment_statistic_lengths segment_statistic_lengths_count p_logger = Some s"
proof -
  have "sint segment_statistic_lengths_count = int (length segment_statistic_lengths)"
    by (simp add: segment_statistic_lengths_count_def thresholds_nth)
  from constructor_value [OF this] show ?thesis by blast
qed

section \<open>The properties\<close>

text \<open>
  C1: on statistics built from the fixed thresholds (and updated any number of times), a
  call of \<open>update\<close> with a length greater than 0 increments the count of exactly one
  bucket of the chosen side and changes nothing else in that vector: for a length below
  the final threshold (100 mm) it is the one bucket with \<open>min_mm \<le> length < max_mm\<close>,
  which is unique; for a length of at least 100 mm it is the last bucket (index 12,
  \<open>min_mm = 100\<close>), the overflow bucket.
\<close>

theorem update_counts_one_bucket:
  assumes "0 < length'"
    and "source_target_segment_statistics get_num_digits
           segment_statistic_lengths segment_statistic_lengths_count p_logger = Some s0"
    and "s = update_all add_double s0 calls"
    and "stats = segments_of is_source s"
  shows "length stats = 13 \<and> max_mm (stats ! 11) = 100 \<and> min_mm (stats ! 12) = 100 \<and>
    (\<exists>i<13.
       (if length' < 100
        then \<forall>j<13. (min_mm (stats ! j) \<le> length' \<and> length' < max_mm (stats ! j)) = (j = i)
        else i = 12) \<and>
       segments_of is_source (update add_double s length' is_source) =
         stats[i := (stats ! i)\<lparr>count := count (stats ! i) + 1\<rparr>])"
proof -
  let ?ts = segment_statistic_lengths
  have lo: "map min_mm stats = 0 # ?ts" and hi: "map max_mm stats = ?ts @ [- 1]"
    using default_constructed [OF assms(2)] assms(3,4)
    by (simp_all add: segments_of_def update_all_ranges)
  have "length (map min_mm stats) = 13"
    unfolding lo using thresholds_nth(1) by simp
  then have len: "length stats = 13" by simp
  have bounds: "max_mm (stats ! 11) = 100" "min_mm (stats ! 12) = 100"
  proof -
    have "max_mm (stats ! 11) = map max_mm stats ! 11" "min_mm (stats ! 12) = map min_mm stats ! 12"
      using len by simp_all
    then show "max_mm (stats ! 11) = 100" "min_mm (stats ! 12) = 100"
      unfolding lo hi using thresholds_nth by (simp_all add: nth_append)
  qed
  have loop: "segments_of is_source (update add_double s length' is_source) =
      update_loop stats length' 0"
    using assms(1,4) by (simp add: segments_of_def update_def)
  from assms(1) have "0 \<le> length'" by simp
  from update_loop_sorted [OF sorted_thresholds this lo hi]
  obtain k where k: "k \<le> length ?ts"
    "if \<exists>t\<in>set ?ts. length' < t
     then k < length ?ts \<and>
       (\<forall>j\<le>length ?ts. (min_mm (stats ! j) \<le> length' \<and> length' < max_mm (stats ! j)) = (j = k))
     else k = length ?ts"
    "update_loop stats length' 0 = stats[k := (stats ! k)\<lparr>count := count (stats ! k) + 1\<rparr>]"
    by blast
  have "if length' < 100
        then \<forall>j<13. (min_mm (stats ! j) \<le> length' \<and> length' < max_mm (stats ! j)) = (j = k)
        else k = 12"
  proof (cases "length' < 100")
    case True
    with k(2) have "\<forall>j\<le>12. (min_mm (stats ! j) \<le> length' \<and> length' < max_mm (stats ! j)) = (j = k)"
      unfolding below_some_threshold thresholds_nth(1) by simp
    moreover have "j \<le> 12" if "j < 13" for j :: nat
      using that by simp
    ultimately show ?thesis
      using True by simp
  next
    case False
    with k(2) show ?thesis
      unfolding below_some_threshold thresholds_nth(1) by simp
  qed
  moreover have "k < 13"
    using k(1) thresholds_nth(1) by simp
  ultimately show ?thesis
    unfolding loop k(3) using len bounds by (intro conjI exI [of _ k]) simp_all
qed

theorem update_counts_one_bucket_witness:
  "(0::real) < 3 / 100 \<and>
   (\<exists>s0. source_target_segment_statistics (\<lambda>x. 3)
            segment_statistic_lengths segment_statistic_lengths_count None = Some s0 \<and>
      length (segments_of True s0) = 13 \<and>
      (\<exists>i<13.
         (if (3 / 100 :: real) < 100
          then \<forall>j<13. (min_mm (segments_of True s0 ! j) \<le> 3 / 100 \<and>
                  3 / 100 < max_mm (segments_of True s0 ! j)) = (j = i)
          else i = 12) \<and>
         segments_of True (update (+) s0 (3 / 100) True) =
           (segments_of True s0)[i := (segments_of True s0 ! i)
              \<lparr>count := count (segments_of True s0 ! i) + 1\<rparr>]) \<and>
      map count (source_segments (update (+) s0 (3 / 100) True)) =
        [0, 0, 0, 1, 0, 0, 0, 0, 0, 0, 0, 0, 0])"
proof -
  let ?ts = segment_statistic_lengths
  let ?s0 = "\<lparr>source_segments = map2 segment_statistic (0 # ?ts) (?ts @ [- 1]),
      target_segments = map2 segment_statistic (0 # ?ts) (?ts @ [- 1]),
      total_length_source = 0, total_length_target = 0,
      max_width = 3, max_precision = 3,
      total_count_source = 0, total_count_target = 0,
      num_segment_tracking_lengths = segment_statistic_lengths_count,
      p_logger_priv = None, logger_type_priv = 0\<rparr>"
  have pos: "(0::real) < 3 / 100" by simp
  have built: "source_target_segment_statistics (\<lambda>x. 3) ?ts segment_statistic_lengths_count None
      = Some ?s0"
    by code_simp
  have counts: "map count (source_segments (update (+) ?s0 (3 / 100) True)) =
      [0, 0, 0, 1, 0, 0, 0, 0, 0, 0, 0, 0, 0]"
    by code_simp
  from update_counts_one_bucket [OF pos built refl refl, where calls = "[]" and is_source = True
      and add_double = "(+)"]
  have "length (segments_of True ?s0) = 13 \<and>
      (\<exists>i<13.
         (if (3 / 100 :: real) < 100
          then \<forall>j<13. (min_mm (segments_of True ?s0 ! j) \<le> 3 / 100 \<and>
                  3 / 100 < max_mm (segments_of True ?s0 ! j)) = (j = i)
          else i = 12) \<and>
         segments_of True (update (+) ?s0 (3 / 100) True) =
           (segments_of True ?s0)[i := (segments_of True ?s0 ! i)
              \<lparr>count := count (segments_of True ?s0 ! i) + 1\<rparr>])"
    unfolding update_all.simps by (elim conjE) (intro conjI, assumption+)
  with pos built counts show ?thesis
    by (intro conjI exI [of _ ?s0]) (assumption | elim conjE)+
qed

text \<open>
  C2: after any run of \<open>update\<close> calls on freshly constructed statistics (whatever
  thresholds they were constructed from), the counts of the source buckets add up to
  \<open>total_count_source\<close> and the counts of the target buckets add up to
  \<open>total_count_target\<close>; and a single \<open>update\<close> call keeps both equalities, on any
  statistics with at least one bucket on each side (the constructor always pushes the
  overflow bucket, and \<open>update\<close> never removes a bucket).
\<close>

theorem counts_sum_to_totals:
  "(source_target_segment_statistics get_num_digits ts num_lengths p_logger = Some s0 \<longrightarrow>
      counts_match_totals (update_all add_double s0 calls)) \<and>
   (source_segments s \<noteq> [] \<and> target_segments s \<noteq> [] \<and> counts_match_totals s \<longrightarrow>
      counts_match_totals (update add_double s length' is_source))"
  using constructed_counts_match [of get_num_digits ts num_lengths p_logger s0]
  by (simp add: update_all_counts_match update_counts_match)

theorem counts_sum_to_totals_witness:
  "\<exists>s0. source_target_segment_statistics (\<lambda>x. 3)
            segment_statistic_lengths segment_statistic_lengths_count None = Some s0 \<and>
      counts_match_totals (update_all (+) s0 [(3 / 100, True), (250, False), (0, True), (7, True)]) \<and>
      map count (source_segments (update_all (+) s0 [(3 / 100, True), (250, False), (0, True), (7, True)]))
        = [0, 0, 0, 1, 0, 0, 0, 0, 1, 0, 0, 0, 0] \<and>
      total_count_source (update_all (+) s0 [(3 / 100, True), (250, False), (0, True), (7, True)]) = 2 \<and>
      map count (target_segments (update_all (+) s0 [(3 / 100, True), (250, False), (0, True), (7, True)]))
        = [0, 0, 0, 0, 0, 0, 0, 0, 0, 0, 0, 0, 1] \<and>
      total_count_target (update_all (+) s0 [(3 / 100, True), (250, False), (0, True), (7, True)]) = 1 \<and>
      source_segments s0 \<noteq> [] \<and> target_segments s0 \<noteq> [] \<and> counts_match_totals s0 \<and>
      counts_match_totals (update (+) s0 7 False)"
proof -
  let ?ts = segment_statistic_lengths
  let ?s0 = "\<lparr>source_segments = map2 segment_statistic (0 # ?ts) (?ts @ [- 1]),
      target_segments = map2 segment_statistic (0 # ?ts) (?ts @ [- 1]),
      total_length_source = 0, total_length_target = 0,
      max_width = 3, max_precision = 3,
      total_count_source = 0, total_count_target = 0,
      num_segment_tracking_lengths = segment_statistic_lengths_count,
      p_logger_priv = None, logger_type_priv = 0\<rparr>"
  let ?calls = "[(3 / 100, True), (250, False), (0, True), (7, True)] :: (double \<times> bool) list"
  have built: "source_target_segment_statistics (\<lambda>x. 3) ?ts segment_statistic_lengths_count None
      = Some ?s0"
    by code_simp
  have start: "source_segments ?s0 \<noteq> []" "target_segments ?s0 \<noteq> []" "counts_match_totals ?s0"
    by code_simp+
  have run: "map count (source_segments (update_all (+) ?s0 ?calls))
        = [0, 0, 0, 1, 0, 0, 0, 0, 1, 0, 0, 0, 0]"
      "total_count_source (update_all (+) ?s0 ?calls) = 2"
      "map count (target_segments (update_all (+) ?s0 ?calls))
        = [0, 0, 0, 0, 0, 0, 0, 0, 0, 0, 0, 0, 1]"
      "total_count_target (update_all (+) ?s0 ?calls) = 1"
    by code_simp+
  from counts_sum_to_totals [of "\<lambda>x. 3" ?ts segment_statistic_lengths_count None ?s0
      "(+)" ?calls ?s0 7 False] built start
  have "counts_match_totals (update_all (+) ?s0 ?calls)"
    "counts_match_totals (update (+) ?s0 7 False)"
    by blast+
  with built start run show ?thesis
    by (intro exI [of _ ?s0] conjI)
qed

text \<open>
  C3, as amended: the twelve thresholds are increasing doubles that approximate the
  decimals 0.002, 0.005, 0.01, 0.05, 0.1, 0.5, 1, 5, 10, 20, 50 and 100: the last seven
  are these decimals exactly; the first five are not (no binary floating-point number
  equals any of these five decimals) and lie within the decimal divided by \<open>2 ^ 24\<close>
  of it. The constructed statistics store exactly the thresholds as bucket boundaries
  on both sides (bucket \<open>i\<close> ends where bucket \<open>i + 1\<close> starts), followed by the
  overflow bucket, which starts at 100 and takes every length of at least 100 mm.
\<close>

theorem thresholds_approximate_decimals:
  "sorted_wrt (<) segment_statistic_lengths \<and>
   drop 5 segment_statistic_lengths = drop 5 segment_statistic_decimals \<and>
   list_all2 (\<lambda>v d. v \<noteq> d \<and> \<bar>v - d\<bar> \<le> d / 2 ^ 24)
     (take 5 segment_statistic_lengths) (take 5 segment_statistic_decimals) \<and>
   list_all (\<lambda>d. \<forall>m k. real_of_int m / 2 ^ k \<noteq> d) (take 5 segment_statistic_decimals) \<and>
   (\<exists>s. source_target_segment_statistics get_num_digits
          segment_statistic_lengths segment_statistic_lengths_count p_logger = Some s \<and>
      map min_mm (source_segments s) = 0 # segment_statistic_lengths \<and>
      map max_mm (source_segments s) = segment_statistic_lengths @ [- 1] \<and>
      target_segments s = source_segments s \<and>
      length (source_segments s) = 13 \<and>
      min_mm (source_segments s ! 12) = 100 \<and>
      (100 \<le> length' \<longrightarrow>
         segments_of is_source (update add_double s length' is_source) =
           (segments_of is_source s)[12 := (segments_of is_source s ! 12)
              \<lparr>count := count (segments_of is_source s ! 12) + 1\<rparr>]))"
proof -
  let ?ts = segment_statistic_lengths
  have a: "sorted_wrt (<) ?ts"
    by (simp add: segment_statistic_lengths_def float_literal_def)
  have c: "drop 5 ?ts = drop 5 segment_statistic_decimals"
    by (simp add: segment_statistic_lengths_def segment_statistic_decimals_def float_literal_def)
  have d: "list_all2 (\<lambda>v d. v \<noteq> d \<and> \<bar>v - d\<bar> \<le> d / 2 ^ 24)
      (take 5 ?ts) (take 5 segment_statistic_decimals)"
    by (simp add: segment_statistic_lengths_def segment_statistic_decimals_def float_literal_def)
  have "sint segment_statistic_lengths_count = int (length ?ts)"
    by (simp add: segment_statistic_lengths_count_def thresholds_nth)
  from constructor_result [OF this, of get_num_digits p_logger] obtain s where
    s: "source_target_segment_statistics get_num_digits ?ts segment_statistic_lengths_count p_logger
          = Some s"
    and lo: "map min_mm (source_segments s) = 0 # ?ts"
    and hi: "map max_mm (source_segments s) = ?ts @ [- 1]"
    and same: "target_segments s = source_segments s"
    by (elim exE conjE)
  have "length (map min_mm (source_segments s)) = 13"
    unfolding lo using thresholds_nth(1) by simp
  then have len: "length (source_segments s) = 13" by simp
  then have "min_mm (source_segments s ! 12) = map min_mm (source_segments s) ! 12"
    by simp
  then have last: "min_mm (source_segments s ! 12) = 100"
    unfolding lo using thresholds_nth by simp
  have over: "segments_of is_source (update add_double s length' is_source) =
           (segments_of is_source s)[12 := (segments_of is_source s ! 12)
              \<lparr>count := count (segments_of is_source s ! 12) + 1\<rparr>]"
    if "100 \<le> length'"
  proof -
    from that have "0 \<le> length'" "\<not> (\<exists>t\<in>set ?ts. length' < t)"
      by (simp_all add: below_some_threshold)
    with update_loop_sorted [OF sorted_thresholds \<open>0 \<le> length'\<close> lo hi]
    have "update_loop (source_segments s) length' 0 =
        (source_segments s)[12 := (source_segments s ! 12)
           \<lparr>count := count (source_segments s ! 12) + 1\<rparr>]"
      using thresholds_nth(1) by auto
    with that same show ?thesis
      by (simp add: segments_of_def update_def)
  qed
  from s lo hi same len last over
  have "\<exists>s. source_target_segment_statistics get_num_digits ?ts segment_statistic_lengths_count p_logger
          = Some s \<and>
      map min_mm (source_segments s) = 0 # ?ts \<and>
      map max_mm (source_segments s) = ?ts @ [- 1] \<and>
      target_segments s = source_segments s \<and>
      length (source_segments s) = 13 \<and>
      min_mm (source_segments s ! 12) = 100 \<and>
      (100 \<le> length' \<longrightarrow>
         segments_of is_source (update add_double s length' is_source) =
           (segments_of is_source s)[12 := (segments_of is_source s ! 12)
              \<lparr>count := count (segments_of is_source s ! 12) + 1\<rparr>])"
    by (intro exI [of _ s]) simp
  with a c d decimals_not_binary show ?thesis by (intro conjI)
qed

theorem thresholds_approximate_decimals_witness:
  "(100 :: real) \<le> 250 \<and>
   (\<exists>s. source_target_segment_statistics (\<lambda>x. 3)
          segment_statistic_lengths segment_statistic_lengths_count None = Some s \<and>
      segments_of False (update (+) s 250 False) =
        (segments_of False s)[12 := (segments_of False s ! 12)
           \<lparr>count := count (segments_of False s ! 12) + 1\<rparr>] \<and>
      map count (target_segments (update (+) s 250 False)) =
        [0, 0, 0, 0, 0, 0, 0, 0, 0, 0, 0, 0, 1])"
proof -
  let ?ts = segment_statistic_lengths
  let ?s0 = "\<lparr>source_segments = map2 segment_statistic (0 # ?ts) (?ts @ [- 1]),
      target_segments = map2 segment_statistic (0 # ?ts) (?ts @ [- 1]),
      total_length_source = 0, total_length_target = 0,
      max_width = 3, max_precision = 3,
      total_count_source = 0, total_count_target = 0,
      num_segment_tracking_lengths = segment_statistic_lengths_count,
      p_logger_priv = None, logger_type_priv = 0\<rparr>"
  have h: "(100 :: real) \<le> 250" by simp
  have built: "source_target_segment_statistics (\<lambda>x. 3) ?ts segment_statistic_lengths_count None
      = Some ?s0"
    by code_simp
  have counts: "map count (target_segments (update (+) ?s0 250 False)) =
      [0, 0, 0, 0, 0, 0, 0, 0, 0, 0, 0, 0, 1]"
    by code_simp
  from thresholds_approximate_decimals [of "\<lambda>x. 3" None 250 False "(+)"] obtain s where
    s: "source_target_segment_statistics (\<lambda>x. 3) ?ts segment_statistic_lengths_count None = Some s"
    and over: "(100 :: real) \<le> 250 \<longrightarrow>
         segments_of False (update (+) s 250 False) =
           (segments_of False s)[12 := (segments_of False s ! 12)
              \<lparr>count := count (segments_of False s ! 12) + 1\<rparr>]"
    by (elim exE conjE)
  from s built have eq: "s = ?s0" by simp
  from over h have "segments_of False (update (+) s 250 False) =
           (segments_of False s)[12 := (segments_of False s ! 12)
              \<lparr>count := count (segments_of False s ! 12) + 1\<rparr>]"
    by (rule mp)
  with h built counts show ?thesis
    unfolding eq by (intro conjI exI [of _ ?s0])
qed

text \<open>
  C3, as stated, fails: the first threshold stored is \<open>8589935 / 2 ^ 32\<close>, which is
  \<open>51 / 536870912000\<close> (about \<open>9.5e-11\<close>) more than 0.002, so the boundaries stored
  in a constructed statistics object are not the list of decimals. The difference shows
  in the counts: the double nearest to 0.002, \<open>4611686018427388 / 2 ^ 61\<close>, is at least
  0.002 and is still counted in the first bucket.
\<close>

theorem thresholds_not_decimal:
  "segment_statistic_lengths ! 0 = 8589935 / 2 ^ 32 \<and>
   segment_statistic_decimals ! 0 = 2 / 1000 \<and>
   (8589935 / 2 ^ 32 :: real) - 2 / 1000 = 51 / 536870912000 \<and>
   segment_statistic_lengths \<noteq> segment_statistic_decimals \<and>
   map_option (\<lambda>s. map max_mm (butlast (source_segments s)))
     (source_target_segment_statistics (\<lambda>x. 3)
        segment_statistic_lengths segment_statistic_lengths_count None)
     \<noteq> Some segment_statistic_decimals \<and>
   (2 / 1000 :: real) \<le> 4611686018427388 / 2 ^ 61 \<and>
   map_option (\<lambda>s. map count (source_segments (update (+) s (4611686018427388 / 2 ^ 61) True)))
     (source_target_segment_statistics (\<lambda>x. 3)
        segment_statistic_lengths segment_statistic_lengths_count None)
     = Some [1, 0, 0, 0, 0, 0, 0, 0, 0, 0, 0, 0, 0]"
proof -
  let ?ts = segment_statistic_lengths
  let ?s0 = "\<lparr>source_segments = map2 segment_statistic (0 # ?ts) (?ts @ [- 1]),
      target_segments = map2 segment_statistic (0 # ?ts) (?ts @ [- 1]),
      total_length_source = 0, total_length_target = 0,
      max_width = 3, max_precision = 3,
      total_count_source = 0, total_count_target = 0,
      num_segment_tracking_lengths = segment_statistic_lengths_count,
      p_logger_priv = None, logger_type_priv = 0\<rparr>"
  have built: "source_target_segment_statistics (\<lambda>x. 3) ?ts segment_statistic_lengths_count None
      = Some ?s0"
    by code_simp
  have ne: "?ts \<noteq> segment_statistic_decimals"
    by (simp add: segment_statistic_lengths_def segment_statistic_decimals_def float_literal_def)
  have "map max_mm (butlast (source_segments ?s0)) = ?ts"
    by code_simp
  with ne have stored: "map_option (\<lambda>s. map max_mm (butlast (source_segments s)))
     (source_target_segment_statistics (\<lambda>x. 3) ?ts segment_statistic_lengths_count None)
     \<noteq> Some segment_statistic_decimals"
    unfolding built by simp
  have "map count (source_segments (update (+) ?s0 (4611686018427388 / 2 ^ 61) True))
      = [1, 0, 0, 0, 0, 0, 0, 0, 0, 0, 0, 0, 0]"
    by code_simp
  then have counted: "map_option
       (\<lambda>s. map count (source_segments (update (+) s (4611686018427388 / 2 ^ 61) True)))
       (source_target_segment_statistics (\<lambda>x. 3) ?ts segment_statistic_lengths_count None)
     = Some [1, 0, 0, 0, 0, 0, 0, 0, 0, 0, 0, 0, 0]"
    unfolding built by simp
  have "?ts ! 0 = 8589935 / 2 ^ 32"
    "segment_statistic_decimals ! 0 = 2 / 1000"
    "(8589935 / 2 ^ 32 :: real) - 2 / 1000 = 51 / 536870912000"
    "(2 / 1000 :: real) \<le> 4611686018427388 / 2 ^ 61"
    by (simp_all add: segment_statistic_lengths_def segment_statistic_decimals_def float_literal_def)
  with ne stored counted show ?thesis by (intro conjI)
qed

text \<open>
  C4: after any run of \<open>update\<close> calls on freshly constructed statistics in which no
  length is a NaN, \<open>total_length_source\<close> is the sum of the lengths greater than 0
  passed with \<open>is_source = true\<close>, accumulated from 0 in call order with the program's
  double addition, and \<open>total_count_source\<close> is the number of these calls, as a 32-bit
  \<^verbatim>\<open>int\<close> (the same number read as a signed integer as long as it does not exceed
  \<open>2147483647\<close>); likewise for the target side and \<open>is_source = false\<close>. The lengths
  range over all other values of a double, the infinities included.
\<close>

theorem totals_of_nan_free_run:
  assumes "source_target_segment_statistics get_num_digits ts num_lengths p_logger = Some s0"
    and "s = update_all_ieee add_double (ieee_statistics s0) calls"
    and "\<forall>call\<in>set calls. fst call \<noteq> NaN"
  shows "total_length_source_ieee s =
      foldl add_double (Finite 0) (lengths_passed_ieee True calls) \<and>
    total_length_target_ieee s =
      foldl add_double (Finite 0) (lengths_passed_ieee False calls) \<and>
    total_count_source_ieee s = of_nat (length (lengths_passed_ieee True calls)) \<and>
    total_count_target_ieee s = of_nat (length (lengths_passed_ieee False calls)) \<and>
    (length (lengths_passed_ieee True calls) \<le> 2147483647 \<longrightarrow>
       sint (total_count_source_ieee s) = int (length (lengths_passed_ieee True calls))) \<and>
    (length (lengths_passed_ieee False calls) \<le> 2147483647 \<longrightarrow>
       sint (total_count_target_ieee s) = int (length (lengths_passed_ieee False calls)))"
proof -
  from assms(1) have zero: "total_length_source_ieee (ieee_statistics s0) = Finite 0"
    "total_length_target_ieee (ieee_statistics s0) = Finite 0"
    "total_count_source_ieee (ieee_statistics s0) = 0"
    "total_count_target_ieee (ieee_statistics s0) = 0"
    by (auto simp: source_target_segment_statistics_def ieee_statistics_def split: option.splits)
  from update_all_ieee_totals [OF assms(3), of add_double "ieee_statistics s0"]
  show ?thesis
    unfolding assms(2) zero by (simp add: sint_count)
qed

theorem totals_of_nan_free_run_witness:
  "\<exists>s0. source_target_segment_statistics (\<lambda>x. 3)
            segment_statistic_lengths segment_statistic_lengths_count None = Some s0 \<and>
      NaN \<notin> fst ` set [(Finite (1 / 2), True), (Finite 250, False), (Finite 0, True),
                        (PlusInfinity, False), (Finite 7, True), (MinusInfinity, False)] \<and>
      lengths_passed_ieee True
        [(Finite (1 / 2), True), (Finite 250, False), (Finite 0, True),
         (PlusInfinity, False), (Finite 7, True), (MinusInfinity, False)]
        = [Finite (1 / 2), Finite 7] \<and>
      lengths_passed_ieee False
        [(Finite (1 / 2), True), (Finite 250, False), (Finite 0, True),
         (PlusInfinity, False), (Finite 7, True), (MinusInfinity, False)]
        = [Finite 250, PlusInfinity] \<and>
      total_length_source_ieee (update_all_ieee add_unrounded (ieee_statistics s0)
        [(Finite (1 / 2), True), (Finite 250, False), (Finite 0, True),
         (PlusInfinity, False), (Finite 7, True), (MinusInfinity, False)])
        = Finite (15 / 2) \<and>
      total_length_target_ieee (update_all_ieee add_unrounded (ieee_statistics s0)
        [(Finite (1 / 2), True), (Finite 250, False), (Finite 0, True),
         (PlusInfinity, False), (Finite 7, True), (MinusInfinity, False)])
        = PlusInfinity \<and>
      total_count_source_ieee (update_all_ieee add_unrounded (ieee_statistics s0)
        [(Finite (1 / 2), True), (Finite 250, False), (Finite 0, True),
         (PlusInfinity, False), (Finite 7, True), (MinusInfinity, False)])
        = 2 \<and>
      total_count_target_ieee (update_all_ieee add_unrounded (ieee_statistics s0)
        [(Finite (1 / 2), True), (Finite 250, False), (Finite 0, True),
         (PlusInfinity, False), (Finite 7, True), (MinusInfinity, False)])
        = 2 \<and>
      sint (total_count_source_ieee (update_all_ieee add_unrounded (ieee_statistics s0)
        [(Finite (1 / 2), True), (Finite 250, False), (Finite 0, True),
         (PlusInfinity, False), (Finite 7, True), (MinusInfinity, False)]))
        = 2"
proof -
  let ?ts = segment_statistic_lengths
  let ?calls = "[(Finite (1 / 2), True), (Finite 250, False), (Finite 0, True),
                 (PlusInfinity, False), (Finite 7, True), (MinusInfinity, False)]"
  have "sint segment_statistic_lengths_count = int (length ?ts)"
    by (simp add: segment_statistic_lengths_count_def thresholds_nth)
  from constructor_value [OF this, of "\<lambda>x. 3" None] obtain s0 where
    s0: "source_target_segment_statistics (\<lambda>x. 3) ?ts segment_statistic_lengths_count None = Some s0"
    by blast
  have no_nan: "\<forall>call\<in>set ?calls. fst call \<noteq> NaN"
    by simp
  then have no_nan': "NaN \<notin> fst ` set ?calls"
    by simp
  have passed: "lengths_passed_ieee True ?calls = [Finite (1 / 2), Finite 7]"
    "lengths_passed_ieee False ?calls = [Finite 250, PlusInfinity]"
    by (simp_all add: lengths_passed_ieee_def)
  from totals_of_nan_free_run [OF s0 refl no_nan, of add_unrounded]
  have "total_length_source_ieee (update_all_ieee add_unrounded (ieee_statistics s0) ?calls) = Finite (15 / 2)"
    "total_length_target_ieee (update_all_ieee add_unrounded (ieee_statistics s0) ?calls) = PlusInfinity"
    "total_count_source_ieee (update_all_ieee add_unrounded (ieee_statistics s0) ?calls) = 2"
    "total_count_target_ieee (update_all_ieee add_unrounded (ieee_statistics s0) ?calls) = 2"
    "sint (total_count_source_ieee (update_all_ieee add_unrounded (ieee_statistics s0) ?calls)) = 2"
    unfolding passed by simp_all
  with s0 no_nan' passed show ?thesis
    by (intro exI [of _ s0] conjI)
qed

text \<open>
  Without the restriction the property fails: a NaN is not greater than 0, but the
  guard \<^verbatim>\<open>length <= 0\<close> does not hold of it either. On fresh statistics
  \<^verbatim>\<open>update(NaN, true)\<close> makes \<open>total_count_source\<close> 1 although no length greater than
  0 was passed, makes \<open>total_length_source\<close> NaN, and counts in the overflow bucket.
\<close>

theorem nan_length_is_counted:
  "\<not> gt_ieee NaN (Finite 0) \<and> \<not> le_ieee NaN (Finite 0) \<and>
   lengths_passed_ieee True [(NaN, True)] = [] \<and>
   map_option
     (\<lambda>s0. (total_count_source_ieee (update_all_ieee add_unrounded (ieee_statistics s0) [(NaN, True)]),
            total_length_source_ieee (update_all_ieee add_unrounded (ieee_statistics s0) [(NaN, True)]),
            map count_ieee (source_segments_ieee
              (update_all_ieee add_unrounded (ieee_statistics s0) [(NaN, True)]))))
     (source_target_segment_statistics (\<lambda>x. 3)
        segment_statistic_lengths segment_statistic_lengths_count None)
     = Some (1, NaN, [0, 0, 0, 0, 0, 0, 0, 0, 0, 0, 0, 0, 1])"
proof -
  let ?ts = segment_statistic_lengths
  let ?s0 = "\<lparr>source_segments = map2 segment_statistic (0 # ?ts) (?ts @ [- 1]),
      target_segments = map2 segment_statistic (0 # ?ts) (?ts @ [- 1]),
      total_length_source = 0, total_length_target = 0, max_width = 3, max_precision = 3,
      total_count_source = 0, total_count_target = 0,
      num_segment_tracking_lengths = segment_statistic_lengths_count,
      p_logger_priv = None, logger_type_priv = 0\<rparr>"
  have built: "source_target_segment_statistics (\<lambda>x. 3) ?ts segment_statistic_lengths_count None = Some ?s0"
    by code_simp
  have passed: "lengths_passed_ieee True [(NaN, True)] = []"
    by (simp add: lengths_passed_ieee_def)
  have len: "length (source_segments_ieee (ieee_statistics ?s0)) = 13"
    by (simp add: ieee_statistics_def segment_statistic_lengths_def)
  have counts: "map count_ieee (source_segments_ieee (ieee_statistics ?s0)) = [0, 0, 0, 0, 0, 0, 0, 0, 0, 0, 0, 0, 0]"
    by (simp add: ieee_statistics_def segment_statistic_lengths_def segment_statistic_def
        ieee_segment_statistic_def)
  have "map count_ieee (source_segments_ieee (update_ieee add_unrounded (ieee_statistics ?s0) NaN True))
      = (map count_ieee (source_segments_ieee (ieee_statistics ?s0)))[12 := 1]"
    unfolding update_ieee_nan
    by (subst update_loop_ieee_nan) (simp_all add: len map_update ieee_statistics_def
        segment_statistic_lengths_def segment_statistic_def ieee_segment_statistic_def)
  then have bumped: "map count_ieee (source_segments_ieee (update_ieee add_unrounded (ieee_statistics ?s0) NaN True))
      = [0, 0, 0, 0, 0, 0, 0, 0, 0, 0, 0, 0, 1]"
    unfolding counts by (simp add: numeral_eq_Suc)
  have totals: "total_count_source_ieee (update_ieee add_unrounded (ieee_statistics ?s0) NaN True) = 1"
    "total_length_source_ieee (update_ieee add_unrounded (ieee_statistics ?s0) NaN True) = NaN"
    unfolding update_ieee_nan by (simp_all add: ieee_statistics_def)
  show ?thesis
    unfolding built using passed bumped totals by simp
qed

text \<open>
  C5: constructed from \<open>n\<close> thresholds \<open>t\<^sub>0, ..., t\<^bsub>n-1\<^esub>\<close>, the statistics have
  \<open>n + 1\<close> buckets on the source side and the same buckets on the target side:
  bucket \<open>0\<close> starts at \<open>0\<close>, bucket \<open>i\<close> starts at \<open>t\<^bsub>i-1\<^esub>\<close>, every bucket
  before the last ends at \<open>t\<^sub>i\<close>, and the last (overflow) bucket has
  \<open>max_mm = -1\<close>; every count, both total lengths and both total counts are 0.
\<close>

theorem constructor_buckets:
  assumes "sint num_lengths = int n" and "length segment_tracking_lengths = n"
  shows "\<exists>s. source_target_segment_statistics get_num_digits
            segment_tracking_lengths num_lengths p_logger = Some s \<and>
     length (source_segments s) = n + 1 \<and>
     length (target_segments s) = n + 1 \<and>
     (\<forall>i\<le>n.
        min_mm (source_segments s ! i) = (if i = 0 then 0 else segment_tracking_lengths ! (i - 1)) \<and>
        max_mm (source_segments s ! i) = (if i = n then - 1 else segment_tracking_lengths ! i) \<and>
        count (source_segments s ! i) = 0 \<and>
        target_segments s ! i = source_segments s ! i) \<and>
     total_length_source s = 0 \<and> total_length_target s = 0 \<and>
     total_count_source s = 0 \<and> total_count_target s = 0"
proof -
  let ?ts = segment_tracking_lengths
  from assms have "sint num_lengths = int (length ?ts)" by simp
  from constructor_result [OF this, of get_num_digits p_logger] obtain s where
    s: "source_target_segment_statistics get_num_digits ?ts num_lengths p_logger = Some s"
    and lo: "map min_mm (source_segments s) = 0 # ?ts"
    and hi: "map max_mm (source_segments s) = ?ts @ [- 1]"
    and zero: "map count (source_segments s) = replicate (length ?ts + 1) 0"
    and same: "target_segments s = source_segments s"
    and totals: "total_length_source s = 0" "total_length_target s = 0"
      "total_count_source s = 0" "total_count_target s = 0"
    by (elim exE conjE)
  from lo have len: "length (source_segments s) = n + 1"
    using assms(2) by (metis length_map length_Cons Suc_eq_plus1)
  have bucket: "min_mm (source_segments s ! i) = (if i = 0 then 0 else ?ts ! (i - 1)) \<and>
      max_mm (source_segments s ! i) = (if i = n then - 1 else ?ts ! i) \<and>
      count (source_segments s ! i) = 0" if "i \<le> n" for i
  proof -
    from that len have i: "i < length (source_segments s)" by simp
    have "min_mm (source_segments s ! i) = map min_mm (source_segments s) ! i"
      "max_mm (source_segments s ! i) = map max_mm (source_segments s) ! i"
      "count (source_segments s ! i) = map count (source_segments s) ! i"
      using i by simp_all
    then show ?thesis
      unfolding lo hi zero using that assms(2) by (auto simp: nth_Cons' nth_append)
  qed
  show ?thesis
    using s len same totals bucket by (intro exI [of _ s]) simp
qed

theorem constructor_buckets_witness:
  "sint (2 :: int32) = int 2 \<and> length [1, 5 / 2 :: double] = 2 \<and>
   source_target_segment_statistics (\<lambda>x. 1) [1, 5 / 2] 2 None = Some
     \<lparr>source_segments =
        [\<lparr>min_mm = 0, max_mm = 1, count = 0\<rparr>,
         \<lparr>min_mm = 1, max_mm = 5 / 2, count = 0\<rparr>,
         \<lparr>min_mm = 5 / 2, max_mm = - 1, count = 0\<rparr>],
      target_segments =
        [\<lparr>min_mm = 0, max_mm = 1, count = 0\<rparr>,
         \<lparr>min_mm = 1, max_mm = 5 / 2, count = 0\<rparr>,
         \<lparr>min_mm = 5 / 2, max_mm = - 1, count = 0\<rparr>],
      total_length_source = 0, total_length_target = 0,
      max_width = 1, max_precision = 3,
      total_count_source = 0, total_count_target = 0,
      num_segment_tracking_lengths = 2,
      p_logger_priv = None, logger_type_priv = 0\<rparr> \<and>
   (\<exists>s. source_target_segment_statistics (\<lambda>x. 1) [1, 5 / 2] 2 None = Some s \<and>
      length (source_segments s) = 3 \<and> length (target_segments s) = 3 \<and>
      min_mm (source_segments s ! 0) = 0 \<and> max_mm (source_segments s ! 0) = 1 \<and>
      min_mm (source_segments s ! 1) = 1 \<and> max_mm (source_segments s ! 1) = 5 / 2 \<and>
      min_mm (source_segments s ! 2) = 5 / 2 \<and> max_mm (source_segments s ! 2) = - 1)"
proof -
  have h: "sint (2 :: int32) = int 2" "length [1, 5 / 2 :: double] = 2"
    by simp_all
  from constructor_buckets [OF h, of "\<lambda>x. 1" None] obtain s where
    s: "source_target_segment_statistics (\<lambda>x. 1) [1, 5 / 2] 2 None = Some s"
      "length (source_segments s) = 2 + 1" "length (target_segments s) = 2 + 1"
    and b: "\<forall>i\<le>2.
        min_mm (source_segments s ! i) = (if i = 0 then 0 else [1, 5 / 2] ! (i - 1)) \<and>
        max_mm (source_segments s ! i) = (if i = 2 then - 1 else [1, 5 / 2] ! i) \<and>
        count (source_segments s ! i) = 0 \<and>
        target_segments s ! i = source_segments s ! i"
    by (elim exE conjE)
  from b have "min_mm (source_segments s ! 0) = 0 \<and> max_mm (source_segments s ! 0) = 1 \<and>
      min_mm (source_segments s ! 1) = 1 \<and> max_mm (source_segments s ! 1) = 5 / 2 \<and>
      min_mm (source_segments s ! 2) = 5 / 2 \<and> max_mm (source_segments s ! 2) = - 1"
    by simp
  with s have ex: "\<exists>s. source_target_segment_statistics (\<lambda>x. 1) [1, 5 / 2] 2 None = Some s \<and>
      length (source_segments s) = 3 \<and> length (target_segments s) = 3 \<and>
      min_mm (source_segments s ! 0) = 0 \<and> max_mm (source_segments s ! 0) = 1 \<and>
      min_mm (source_segments s ! 1) = 1 \<and> max_mm (source_segments s ! 1) = 5 / 2 \<and>
      min_mm (source_segments s ! 2) = 5 / 2 \<and> max_mm (source_segments s ! 2) = - 1"
    by (intro exI [of _ s]) simp
  have val: "source_target_segment_statistics (\<lambda>x. 1) [1, 5 / 2] 2 None = Some
     \<lparr>source_segments =
        [\<lparr>min_mm = 0, max_mm = 1, count = 0\<rparr>,
         \<lparr>min_mm = 1, max_mm = 5 / 2, count = 0\<rparr>,
         \<lparr>min_mm = 5 / 2, max_mm = - 1, count = 0\<rparr>],
      target_segments =
        [\<lparr>min_mm = 0, max_mm = 1, count = 0\<rparr>,
         \<lparr>min_mm = 1, max_mm = 5 / 2, count = 0\<rparr>,
         \<lparr>min_mm = 5 / 2, max_mm = - 1, count = 0\<rparr>],
      total_length_source = 0, total_length_target = 0,
      max_width = 1, max_precision = 3,
      total_count_source = 0, total_count_target = 0,
      num_segment_tracking_lengths = 2,
      p_logger_priv = None, logger_type_priv = 0\<rparr>"
    by code_simp
  from h val ex show ?thesis by (intro conjI)
qed

text \<open>
  C6: a call of \<open>update\<close> with a length less than or equal to 0 leaves the whole
  statistics state unchanged.
\<close>

theorem update_nonpositive_unchanged:
  "length' \<le> 0 \<Longrightarrow> update add_double s length' is_source = s"
  by (simp add: update_def)

theorem update_nonpositive_unchanged_witness:
  "(- 5 :: real) \<le> 0 \<and> (0 :: real) \<le> 0 \<and>
   (\<exists>s0. source_target_segment_statistics (\<lambda>x. 3)
            segment_statistic_lengths segment_statistic_lengths_count None = Some s0 \<and>
      update (+) s0 (- 5) True = s0 \<and> update (+) s0 0 False = s0)"
proof -
  have h: "(- 5 :: real) \<le> 0" "(0 :: real) \<le> 0" by simp_all
  have "sint segment_statistic_lengths_count = int (length segment_statistic_lengths)"
    by (simp add: segment_statistic_lengths_count_def thresholds_nth)
  from constructor_value [OF this, of "\<lambda>x. 3" None] obtain s0 where
    s0: "source_target_segment_statistics (\<lambda>x. 3)
            segment_statistic_lengths segment_statistic_lengths_count None = Some s0"
    by blast
  from update_nonpositive_unchanged [OF h(1), of "(+)" s0 True]
    update_nonpositive_unchanged [OF h(2), of "(+)" s0 False] h s0
  show ?thesis by (intro conjI exI [of _ s0])
qed

text \<open>
  C7: a call of \<open>update\<close> with \<open>is_source = true\<close> leaves every target-side field
  (total length, total count and all target buckets) as it was, and a call with
  \<open>is_source = false\<close> leaves every source-side field as it was.
\<close>

theorem update_frame:
  "total_length_target (update add_double s length' True) = total_length_target s \<and>
   total_count_target (update add_double s length' True) = total_count_target s \<and>
   target_segments (update add_double s length' True) = target_segments s \<and>
   total_length_source (update add_double s length' False) = total_length_source s \<and>
   total_count_source (update add_double s length' False) = total_count_source s \<and>
   source_segments (update add_double s length' False) = source_segments s"
  by (simp add: update_def)


text \<open>
  C9: the snapshot handed to the progress callback is an \<open>arc_welder_progress\<close>; it
  has the fields percent complete, seconds elapsed, seconds remaining, gcodes processed,
  lines processed, points compressed, arcs created, source and target file size,
  compression ratio and compression percent, and the constructor sets each of them (and
  the source file position) to zero, with freshly constructed segment statistics.
\<close>

theorem fresh_progress_is_zero:
  "\<exists>p. (arc_welder_progress get_num_digits :: 'l::len arc_welder_progress option) = Some p \<and>
     percent_complete p = 0 \<and> seconds_elapsed p = 0 \<and> seconds_remaining p = 0 \<and>
     gcodes_processed p = 0 \<and> lines_processed p = 0 \<and>
     points_compressed p = 0 \<and> arcs_created p = 0 \<and>
     source_file_size p = 0 \<and> target_file_size p = 0 \<and>
     compression_ratio p = 0 \<and> compression_percent p = 0 \<and>
     source_file_position p = 0 \<and>
     source_target_segment_statistics get_num_digits
       segment_statistic_lengths segment_statistic_lengths_count None = Some (segment_statistics p)"
proof -
  from default_exists [of get_num_digits None] obtain s where
    "source_target_segment_statistics get_num_digits
       segment_statistic_lengths segment_statistic_lengths_count None = Some s"
    by blast
  then show ?thesis
    by (simp add: arc_welder_progress_def)
qed

text \<open>
  C10: the progress callback takes a progress snapshot (and, in the source, the logger
  and the logger type) and returns one boolean. In the notification loop it is called
  on the snapshots in order; the first \<open>false\<close> stops the run with a result marked
  cancelled, and a run in which every call returns \<open>true\<close> continues to the end and
  is not marked cancelled.
\<close>

theorem callback_false_cancels:
  "process_notifications callback p_logger logger_type results notifications final =
     (case find (\<lambda>snapshot. \<not> callback snapshot p_logger logger_type) notifications of
        None \<Rightarrow> results\<lparr>success := True, cancelled := False, progress := final\<rparr>
      | Some snapshot \<Rightarrow> results\<lparr>success := True, cancelled := True, progress := snapshot\<rparr>) \<and>
   cancelled (process_notifications callback p_logger logger_type results notifications final) =
     (\<not> list_all (\<lambda>snapshot. callback snapshot p_logger logger_type) notifications)"
  by (induction notifications) (auto split: option.splits)

end
